theory Spec2Isabelle
  imports Main "HOL-Library.Sublist" "HOL-Library.Monad_Syntax"
begin

section \<open>Python text primitives used by the two scripts\<close>

text \<open>
  Text is a \<open>string\<close>, a list of 8-bit characters. The model is exact on ASCII text:
  the white space of \<open>str.strip\<close>, \<open>str.isspace\<close> and the pattern class \<open>\s\<close> is the
  ASCII white space (tab, line feed, vertical tab, form feed, carriage return, the four
  separators 0x1C..0x1F and the blank); the digits of \<open>\d\<close> and \<open>int\<close> are \<open>0\<close>..\<open>9\<close>.
  \<open>int\<close> is modelled without the interpreter's optional cap on the number of digits.
\<close>

definition is_space :: "char \<Rightarrow> bool" where
  "is_space c = (c \<in> set [CHR 0x09, CHR 0x0A, CHR 0x0B, CHR 0x0C, CHR 0x0D,
                            CHR 0x1C, CHR 0x1D, CHR 0x1E, CHR 0x1F, CHR '' ''])"

definition is_digit :: "char \<Rightarrow> bool" where
  "is_digit c = (c \<in> set ''0123456789'')"

definition digit_val :: "char \<Rightarrow> int" where
  "digit_val c = int (length (takeWhile (\<lambda>d. d \<noteq> c) ''0123456789''))"

text \<open>\<open>s.strip()\<close>: white space removed at both ends.\<close>

definition py_strip :: "string \<Rightarrow> string" where
  "py_strip s = rev (dropWhile is_space (rev (dropWhile is_space s)))"

text \<open>\<open>s.split(sep)\<close> for a one-character separator: never empty, \<open>''''\<close> gives \<open>['''']\<close>.\<close>

fun py_split :: "char \<Rightarrow> string \<Rightarrow> string list" where
  "py_split sep [] = [[]]"
| "py_split sep (c # cs) =
     (let r = py_split sep cs in if c = sep then [] # r else (c # hd r) # tl r)"

text \<open>\<open>sep.join(xs)\<close>.\<close>

fun py_join :: "string \<Rightarrow> string list \<Rightarrow> string" where
  "py_join sep [] = []"
| "py_join sep [x] = x"
| "py_join sep (x # y # ys) = x @ sep @ py_join sep (y # ys)"


text \<open>\<open>f.readline()\<close> on a freshly opened file: the first line with its line feed.\<close>

fun readline :: "string \<Rightarrow> string" where
  "readline [] = []"
| "readline (c # cs) = (if c = CHR 0x0A then [c] else c # readline cs)"

definition startswith :: "string \<Rightarrow> string \<Rightarrow> bool" where
  "startswith s p = prefix p s"

definition endswith :: "string \<Rightarrow> string \<Rightarrow> bool" where
  "endswith s p = suffix p s"

text \<open>\<open>sub in s\<close> on strings: \<open>sub\<close> occurs in \<open>s\<close> as a contiguous piece.\<close>

fun py_in :: "string \<Rightarrow> string \<Rightarrow> bool" where
  "py_in sub [] = (sub = [])"
| "py_in sub (c # cs) = (prefix sub (c # cs) \<or> py_in sub cs)"

text \<open>\<open>str(n)\<close> for an integer.\<close>

fun str_nat :: "nat \<Rightarrow> string" where
  "str_nat n = (if n < 10 then [''0123456789'' ! n]
                else str_nat (n div 10) @ [''0123456789'' ! (n mod 10)])"

declare str_nat.simps [simp del]

definition py_str :: "int \<Rightarrow> string" where
  "py_str i = (if i < 0 then ''-'' @ str_nat (nat (- i)) else str_nat (nat i))"

text \<open>
  \<open>int(s)\<close> on a string, \<open>None\<close> for \<open>ValueError\<close>: white space stripped, an optional sign,
  then decimal digits in groups separated by single underscores.
\<close>

definition int_digits :: "string \<Rightarrow> string option" where
  "int_digits s =
     (let groups = py_split (CHR ''_'') s in
      if (\<forall>g \<in> set groups. g \<noteq> [] \<and> (\<forall>c \<in> set g. is_digit c))
      then Some (concat groups) else None)"

definition digits_value :: "string \<Rightarrow> int" where
  "digits_value ds = foldl (\<lambda>a d. 10 * a + digit_val d) 0 ds"

definition py_int :: "string \<Rightarrow> int option" where
  "py_int s =
     (let t = py_strip s in
      case t of
        c # r \<Rightarrow>
          (if c = CHR ''-'' then map_option (\<lambda>ds. - digits_value ds) (int_digits r)
           else if c = CHR ''+'' then map_option digits_value (int_digits r)
           else map_option digits_value (int_digits t))
      | [] \<Rightarrow> None)"

subsection \<open>Pieces of the regular expressions\<close>

text \<open>
  Each pattern of the scripts is matched with \<open>re.match\<close>, anchored at the start of the line.
  A greedy \<open>X+\<close> whose follower cannot start with a character of \<open>X\<close> takes the longest run
  of \<open>X\<close> and never gives a character back, so it is \<open>takeWhile\<close>/\<open>dropWhile\<close>.
\<close>

definition strip_prefix :: "string \<Rightarrow> string \<Rightarrow> string option" where
  "strip_prefix p s = (if prefix p s then Some (drop (length p) s) else None)"

definition re_plus :: "(char \<Rightarrow> bool) \<Rightarrow> string \<Rightarrow> (string \<times> string) option" where
  "re_plus P s = (if takeWhile P s = [] then None else Some (takeWhile P s, dropWhile P s))"

text \<open>\<open>(?:,\d+)?\<close>: taken when a comma and a digit follow, skipped otherwise.\<close>

definition re_opt_count :: "string \<Rightarrow> string" where
  "re_opt_count s =
     (case strip_prefix '','' s of
        None \<Rightarrow> s
      | Some r \<Rightarrow> (case re_plus is_digit r of None \<Rightarrow> s | Some (_, r') \<Rightarrow> r'))"

text \<open>
  The end of the line for \<open>$\<close>: \<open>.\<close> matches every character but the line feed, and \<open>$\<close>
  matches at the end of the string or before a final line feed.
\<close>

definition before_final_newline :: "string \<Rightarrow> string" where
  "before_final_newline s = (if s \<noteq> [] \<and> last s = CHR 0x0A then butlast s else s)"

definition dot_star_end :: "string \<Rightarrow> bool" where
  "dot_star_end s = (CHR 0x0A \<notin> set (before_final_newline s))"

definition dot_plus_end :: "string \<Rightarrow> bool" where
  "dot_plus_end s = (before_final_newline s \<noteq> [] \<and> dot_star_end s)"

section \<open>The process and its environment\<close>

text \<open>
  What a run leaves behind: the lines printed on the two streams and the files written
  (\<open>open(name, 'w')\<close> replaces the file). The check mark U+2713 and the skip sign U+23ED
  of two progress messages are carried as their UTF-8 bytes.
\<close>

record proc =
  stdout :: "string list"
  stderr :: "string list"
  files :: "string \<rightharpoonup> string"

definition proc0 :: proc where
  "proc0 = \<lparr>stdout = [], stderr = [], files = Map.empty\<rparr>"

definition print :: "string \<Rightarrow> proc \<Rightarrow> proc" where
  "print s p = p\<lparr>stdout := stdout p @ [s]\<rparr>"

definition eprint :: "string \<Rightarrow> proc \<Rightarrow> proc" where
  "eprint s p = p\<lparr>stderr := stderr p @ [s]\<rparr>"


text \<open>
  At a path there is nothing (\<open>FileNotFoundError\<close> on opening), a regular file that
  cannot be opened or read (another \<open>OSError\<close>), or a readable regular file with its
  decoded text. Directories and other special files are left out.
\<close>

datatype fnode = Absent | Unreadable | Regular string

definition isfile :: "(string \<Rightarrow> fnode) \<Rightarrow> string \<Rightarrow> bool" where
  "isfile fs path = (fs path \<noteq> Absent)"

text \<open>The exceptions that can end a run: \<open>sys.exit(n)\<close> and the ones no handler catches.\<close>

datatype exn = SystemExit int | OSError string | ValueError


section \<open>extract_shell_info.py\<close>

definition is_shell_script :: "(string \<Rightarrow> fnode) \<Rightarrow> string \<Rightarrow> bool" where
  "is_shell_script fs file_path =
     (if endswith file_path ''.sh'' \<or> endswith file_path ''.bash'' then True
      else if isfile fs file_path then
        (case fs file_path of
           Regular text \<Rightarrow>
             (let first_line = py_strip (readline text) in
              if startswith first_line ''#!'' \<and>
                 (py_in ''bash'' first_line \<or> py_in ''sh'' first_line)
              then True else False)
         | _ \<Rightarrow> False)
      else False)"

text \<open>
  \<open>^diff --git a/(.+) b/(.+)$\<close>, the first group. \<open>(.+)\<close> is greedy and gives characters
  back one at a time, so of all the ways to split the rest of the line around \<open>'' b/''\<close>
  the match has the longest first group.
\<close>

fun git_group1 :: "string \<Rightarrow> string option" where
  "git_group1 [] = None"
| "git_group1 (c # cs) =
     (if c = CHR 0x0A then None
      else (case git_group1 cs of
              Some g \<Rightarrow> Some (c # g)
            | None \<Rightarrow>
                (case strip_prefix '' b/'' cs of
                   Some q \<Rightarrow> if dot_plus_end q then Some [c] else None
                 | None \<Rightarrow> None)))"

definition git_diff_match :: "string \<Rightarrow> string option" where
  "git_diff_match line =
     (case strip_prefix ''diff --git a/'' line of None \<Rightarrow> None | Some r \<Rightarrow> git_group1 r)"

text \<open>\<open>^@@\s+-\d+(?:,\d+)?\s+\+(\d+)(?:,\d+)?\s+@@\<close>, the group.\<close>

definition hunk_match :: "string \<Rightarrow> string option" where
  "hunk_match line = do {
     r0 \<leftarrow> strip_prefix ''@@'' line;
     (_, r1) \<leftarrow> re_plus is_space r0;
     r2 \<leftarrow> strip_prefix ''-'' r1;
     (_, r3) \<leftarrow> re_plus is_digit r2;
     (_, r4) \<leftarrow> re_plus is_space (re_opt_count r3);
     r5 \<leftarrow> strip_prefix ''+'' r4;
     (g, r6) \<leftarrow> re_plus is_digit r5;
     (_, r7) \<leftarrow> re_plus is_space (re_opt_count r6);
     _ \<leftarrow> strip_prefix ''@@'' r7;
     Some g
   }"

record scan =
  current_file :: "string option"
  current_line_num :: int
  modified_lines :: "string \<rightharpoonup> int set"

definition scan0 :: scan where
  "scan0 = \<lparr>current_file = None, current_line_num = 0, modified_lines = Map.empty\<rparr>"

text \<open>The truth value of \<open>current_file\<close>: neither \<open>None\<close> nor the empty string.\<close>

definition has_file :: "scan \<Rightarrow> bool" where
  "has_file st = (case current_file st of None \<Rightarrow> False | Some f \<Rightarrow> f \<noteq> [])"

text \<open>\<open>modified_lines[f].add(n)\<close> on a \<open>defaultdict(set)\<close>.\<close>

definition add_line :: "string \<Rightarrow> int \<Rightarrow> (string \<rightharpoonup> int set) \<Rightarrow> (string \<rightharpoonup> int set)" where
  "add_line f n m = m(f \<mapsto> insert n (case m f of None \<Rightarrow> {} | Some s \<Rightarrow> s))"

text \<open>The last part of the loop body, "Process diff lines".\<close>

definition process_line :: "scan \<Rightarrow> string \<Rightarrow> scan" where
  "process_line st line =
     (case current_file st of
        None \<Rightarrow> st
      | Some f \<Rightarrow>
          if f \<noteq> [] \<and> current_line_num st > 0 then
            (if startswith line ''+'' \<and> \<not> startswith line ''+++'' then
               st\<lparr>current_line_num := current_line_num st + 1,
                  modified_lines := add_line f (current_line_num st) (modified_lines st)\<rparr>
             else if startswith line '' '' then
               st\<lparr>current_line_num := current_line_num st + 1\<rparr>
             else st)
          else st)"

text \<open>One turn of the loop over the lines of the diff.\<close>

definition parse_step :: "scan \<Rightarrow> string \<Rightarrow> exn + scan" where
  "parse_step st line =
     (case git_diff_match line of
        Some f \<Rightarrow> Inr (st\<lparr>current_file := Some f\<rparr>)
      | None \<Rightarrow>
          (case hunk_match line of
             Some g \<Rightarrow>
               if has_file st then
                 (case py_int g of
                    None \<Rightarrow> Inl ValueError
                  | Some n \<Rightarrow> Inr (st\<lparr>current_line_num := n\<rparr>))
               else Inr (process_line st line)
           | None \<Rightarrow> Inr (process_line st line)))"

fun parse_lines :: "scan \<Rightarrow> string list \<Rightarrow> exn + scan" where
  "parse_lines st [] = Inr st"
| "parse_lines st (line # rest) =
     (case parse_step st line of Inl e \<Rightarrow> Inl e | Inr st' \<Rightarrow> parse_lines st' rest)"

text \<open>\<open>parse_diff_file\<close> from the text of the diff on (lines 59 to 88).\<close>

definition parse_diff :: "string \<Rightarrow> exn + (string \<rightharpoonup> int set)" where
  "parse_diff content =
     (case parse_lines scan0 (py_split (CHR 0x0A) content) of
        Inl e \<Rightarrow> Inl e
      | Inr st \<Rightarrow> Inr (modified_lines st))"

definition parse_diff_file ::
  "(string \<Rightarrow> fnode) \<Rightarrow> string \<Rightarrow> proc \<Rightarrow> (exn + (string \<rightharpoonup> int set)) \<times> proc" where
  "parse_diff_file fs diff_file_path p =
     (case fs diff_file_path of
        Absent \<Rightarrow> (Inr Map.empty, eprint (''Error: '' @ diff_file_path @ '' not found'') p)
      | Unreadable \<Rightarrow> (Inl (OSError diff_file_path), p)
      | Regular content \<Rightarrow> (parse_diff content, p))"

text \<open>One turn of the loop of \<open>main\<close> that writes \<open>modified_lines_map.txt\<close>: the text
  written so far and the process.\<close>

definition write_entry ::
  "(string \<rightharpoonup> int set) \<Rightarrow> string \<times> proc \<Rightarrow> string \<Rightarrow> string \<times> proc" where
  "write_entry ml bp script =
     (let p1 = print (''Extracting modified lines for: '' @ script) (snd bp) in
      case ml script of
        None \<Rightarrow>
          (fst bp @ script @ '':all'' @ [CHR 0x0A],
           print ''  No modified lines found (file might be new or renamed)'' p1)
      | Some s \<Rightarrow>
          if s \<noteq> {} then
            (let lines_str = py_join '','' (map py_str (sorted_list_of_set s)) in
             (fst bp @ script @ '':'' @ lines_str @ [CHR 0x0A],
              print (''  Modified lines: '' @ lines_str) p1))
          else
            (fst bp @ script @ '':all'' @ [CHR 0x0A],
             print ''  No modified lines found (file might be new or renamed)'' p1))"




section \<open>run_shellcheck.py\<close>




text \<open>
  The list comprehension of \<open>is_line_modified\<close>: blank tokens are skipped, the others go
  through \<open>int\<close>; \<open>None\<close> is the \<open>ValueError\<close> of the first token that does not parse.
\<close>

fun int_tokens :: "string list \<Rightarrow> int list option" where
  "int_tokens [] = Some []"
| "int_tokens (x # xs) =
     (if py_strip x \<noteq> [] then
        (case py_int (py_strip x) of
           None \<Rightarrow> None
         | Some n \<Rightarrow> (case int_tokens xs of None \<Rightarrow> None | Some ns \<Rightarrow> Some (n # ns)))
      else int_tokens xs)"

definition is_line_modified :: "string \<Rightarrow> int \<Rightarrow> string \<Rightarrow> bool" where
  "is_line_modified file_path line_num modified_lines_str =
     (if modified_lines_str = ''all'' then True
      else (case int_tokens (py_split (CHR '','') modified_lines_str) of
              Some nums \<Rightarrow> line_num \<in> set nums
            | None \<Rightarrow> True))"






text \<open>\<open>^([^:]+):(\d+):\d+:.*$\<close>, the two groups.\<close>

definition gcc_format_match :: "string \<Rightarrow> (string \<times> string) option" where
  "gcc_format_match line = do {
     (file_path, r1) \<leftarrow> re_plus (\<lambda>c. c \<noteq> CHR '':'') line;
     r2 \<leftarrow> strip_prefix '':'' r1;
     (line_num, r3) \<leftarrow> re_plus is_digit r2;
     r4 \<leftarrow> strip_prefix '':'' r3;
     (_, r5) \<leftarrow> re_plus is_digit r4;
     r6 \<leftarrow> strip_prefix '':'' r5;
     if dot_star_end r6 then Some (file_path, line_num) else None
   }"

definition check_mark :: string where
  "check_mark = [CHR 0xE2, CHR 0x9C, CHR 0x93]"

definition skip_sign :: string where
  "skip_sign = [CHR 0xE2, CHR 0x8F, CHR 0xAD]"

text \<open>
  One turn of the loop of \<open>main\<close> that keeps the issues on modified lines:
  \<open>diff_filtered_lines\<close> and the process.
\<close>

definition diff_filter_step ::
  "(string \<rightharpoonup> string) \<Rightarrow> string list \<times> proc \<Rightarrow> string \<Rightarrow> exn + string list \<times> proc" where
  "diff_filter_step modified_lines_map dp line =
     (if py_strip line \<noteq> [] then
        (case gcc_format_match line of
           None \<Rightarrow> Inr dp
         | Some (file_path, g2) \<Rightarrow>
             (case py_int g2 of
                None \<Rightarrow> Inl ValueError
              | Some line_num \<Rightarrow>
                  (let modified_lines_str =
                         (case modified_lines_map file_path of None \<Rightarrow> [] | Some v \<Rightarrow> v)
                   in
                   if modified_lines_str \<noteq> [] \<and>
                      is_line_modified file_path line_num modified_lines_str
                   then Inr (fst dp @ [line],
                             print (''  '' @ check_mark @ '' Issue on modified line ''
                                    @ py_str line_num @ '': '' @ line) (snd dp))
                   else Inr (fst dp,
                             print (''  '' @ skip_sign @ '' Skipping issue on unmodified line ''
                                    @ py_str line_num) (snd dp)))))
      else Inr dp)"

fun diff_filter_loop ::
  "(string \<rightharpoonup> string) \<Rightarrow> string list \<times> proc \<Rightarrow> string list \<Rightarrow> exn + string list \<times> proc" where
  "diff_filter_loop m dp [] = Inr dp"
| "diff_filter_loop m dp (line # rest) =
     (case diff_filter_step m dp line of
        Inl e \<Rightarrow> Inl e
      | Inr dp' \<Rightarrow> diff_filter_loop m dp' rest)"



section \<open>Notions used in the statements\<close>

text \<open>
  The condition under which the loop of \<open>main\<close> keeps a line: it is not blank, it has the
  GCC shape, and the entry of its file in the map is a non-empty string that
  \<open>is_line_modified\<close> accepts for its line number.
\<close>

definition on_modified_line :: "(string \<rightharpoonup> string) \<Rightarrow> string \<Rightarrow> bool" where
  "on_modified_line m line =
     (py_strip line \<noteq> [] \<and>
      (case gcc_format_match line of
         None \<Rightarrow> False
       | Some (f, g) \<Rightarrow>
           (case m f of
              None \<Rightarrow> False
            | Some v \<Rightarrow> v \<noteq> [] \<and> is_line_modified f (digits_value g) v)))"


text \<open>
  A look-up in the \<open>defaultdict(set)\<close>: the set of a file, empty when it has no entry.
\<close>

definition lines_of :: "(string \<rightharpoonup> int set) \<Rightarrow> string \<Rightarrow> int set" where
  "lines_of m f = (case m f of None \<Rightarrow> {} | Some s \<Rightarrow> s)"

text \<open>The lines of a hunk that exist in the new revision: added lines and context lines.\<close>

definition is_added :: "string \<Rightarrow> bool" where
  "is_added line = (startswith line ''+'' \<and> \<not> startswith line ''+++'')"

definition is_context :: "string \<Rightarrow> bool" where
  "is_context line = startswith line '' ''"


text \<open>A line that neither pattern of the loop matches.\<close>

definition no_header :: "string \<Rightarrow> bool" where
  "no_header line = (git_diff_match line = None \<and> hunk_match line = None)"

text \<open>Two small diffs for the examples, and a file system that holds them.\<close>

definition diff_one_added :: string where
  "diff_one_added = py_join [CHR 0x0A]
     [''diff --git a/deploy.sh b/deploy.sh'', ''@@ -1,3 +10,3 @@'', ''+echo deploying'']"

definition diff_context_added :: string where
  "diff_context_added = py_join [CHR 0x0A]
     [''diff --git a/deploy.sh b/deploy.sh'', ''--- a/deploy.sh'', ''+++ b/deploy.sh'',
      ''@@ -1,3 +10,3 @@'', '' set -e'', ''+echo deploying'']"

definition fs_diffs :: "string \<Rightarrow> fnode" where
  "fs_diffs path =
     (if path = ''one_added.diff'' then Regular diff_one_added
      else if path = ''context_added.diff'' then Regular diff_context_added
      else Absent)"



section \<open>Supporting lemmas\<close>


lemma py_split_no_sep: "sep \<notin> set s \<Longrightarrow> py_split sep s = [s]"
  by (induction s) (auto simp: Let_def)

lemma py_strip_keep: "\<not> is_space c \<Longrightarrow> py_strip (c # s) \<noteq> []"
  by (simp add: py_strip_def)

lemma py_strip_id: "s \<noteq> [] \<Longrightarrow> \<not> is_space (hd s) \<Longrightarrow> \<not> is_space (last s) \<Longrightarrow> py_strip s = s"
proof -
  assume a: "s \<noteq> []" "\<not> is_space (hd s)" "\<not> is_space (last s)"
  then have 1: "dropWhile is_space s = s" by (cases s) auto
  from a have 2: "dropWhile is_space (rev s) = rev s"
    by (cases "rev s") (auto simp: last_rev hd_rev)
  show ?thesis by (simp add: py_strip_def 1 2)
qed

lemma digit_not_space: "is_digit c \<Longrightarrow> \<not> is_space c"
  by (auto simp: is_digit_def is_space_def)

lemma py_int_digits:
  assumes "g \<noteq> []" "\<forall>c \<in> set g. is_digit c"
  shows "py_int g = Some (digits_value g)"
proof -
  from assms have hd: "is_digit (hd g)" and la: "is_digit (last g)" by auto
  have st: "py_strip g = g"
    using assms(1) hd la by (intro py_strip_id) (auto dest: digit_not_space)
  have us: "CHR ''_'' \<notin> set g" using assms(2) by (auto simp: is_digit_def)
  have id: "int_digits g = Some g"
    using assms by (simp add: int_digits_def py_split_no_sep[OF us])
  obtain c r where g: "g = c # r" using assms(1) by (cases g) auto
  with hd have "c \<noteq> CHR ''-''" "c \<noteq> CHR ''+''" by (auto simp: is_digit_def)
  then show ?thesis using id g st by (simp add: py_int_def)
qed

lemma re_plus_digits:
  "re_plus is_digit s = Some (g, r) \<Longrightarrow> g \<noteq> [] \<and> (\<forall>c \<in> set g. is_digit c)"
  by (auto simp: re_plus_def split: if_splits dest: set_takeWhileD)

lemma gcc_format_match_int:
  "gcc_format_match line = Some (f, g) \<Longrightarrow> py_int g = Some (digits_value g)"
  unfolding gcc_format_match_def
  by (auto split: Option.bind_splits if_splits prod.splits dest!: re_plus_digits intro: py_int_digits)

lemma hunk_match_int:
  "hunk_match line = Some g \<Longrightarrow> py_int g = Some (digits_value g)"
  unfolding hunk_match_def
  by (auto split: Option.bind_splits if_splits prod.splits dest!: re_plus_digits intro: py_int_digits)


lemma diff_filter_step_total:
  "\<exists>p'. diff_filter_step m (d, p) line =
          Inr (d @ (if on_modified_line m line then [line] else []), p')"
proof (cases "gcc_format_match line")
  case None
  then show ?thesis by (simp add: diff_filter_step_def on_modified_line_def)
next
  case (Some fg)
  obtain f g where fg: "fg = (f, g)" by (cases fg)
  have "py_int g = Some (digits_value g)"
    using Some fg gcc_format_match_int by simp
  then show ?thesis using Some fg
    by (auto simp: diff_filter_step_def on_modified_line_def Let_def split: option.splits)
qed

lemma diff_filter_loop_total:
  "\<exists>p'. diff_filter_loop m (d, p) lines = Inr (d @ filter (on_modified_line m) lines, p')"
proof (induction lines arbitrary: d p)
  case Nil
  then show ?case by simp
next
  case (Cons line rest)
  obtain p1 where 1: "diff_filter_step m (d, p) line =
      Inr (d @ (if on_modified_line m line then [line] else []), p1)"
    using diff_filter_step_total by blast
  from Cons.IH[of "d @ (if on_modified_line m line then [line] else [])" p1]
  obtain p2 where "diff_filter_loop m (d @ (if on_modified_line m line then [line] else []), p1) rest
     = Inr ((d @ (if on_modified_line m line then [line] else [])) @ filter (on_modified_line m) rest, p2)"
    by blast
  then show ?case using 1 by auto
qed



lemma py_strip_Cons:
  "\<not> is_space x \<Longrightarrow> py_strip (x # xs) = x # rev (dropWhile is_space (rev xs))"
  by (simp add: py_strip_def dropWhile_append)




lemma py_strip_snoc_space: "is_space c \<Longrightarrow> py_strip (s @ [c]) = py_strip s"
proof (cases "\<forall>x \<in> set s. is_space x")
  case True
  then have 1: "dropWhile is_space s = []" by simp
  have 2: "dropWhile is_space (s @ [c]) = []" if "is_space c" using that True by simp
  assume "is_space c"
  then show ?thesis unfolding py_strip_def 1 2[OF \<open>is_space c\<close>] by simp
next
  case False
  assume "is_space c"
  then show ?thesis using False by (auto simp: py_strip_def dropWhile_append)
qed

lemma is_line_modified_5_7:
  "is_line_modified fp 6 ''5,7'' = False \<and> is_line_modified fp 5 ''5,7'' = True"
  by (simp add: is_line_modified_def py_int_def py_strip_def is_space_def int_digits_def
        is_digit_def digits_value_def digit_val_def)

lemma gcc_file_sh_6:
  "CHR 0x0A \<notin> set msg \<Longrightarrow> gcc_format_match (''file.sh:6:1:'' @ msg) = Some (''file.sh'', ''6'')"
  by (simp add: gcc_format_match_def re_plus_def strip_prefix_def is_digit_def dot_star_end_def before_final_newline_def)  (auto dest: in_set_butlastD)







lemma str_nat_0: "str_nat 0 = ''0''"
  by (simp add: str_nat.simps)














lemma takeWhile_digits_colon:
  "\<forall>c \<in> set col. is_digit c \<Longrightarrow> takeWhile is_digit (col @ CHR '':'' # msg) = col"
  "\<forall>c \<in> set col. is_digit c \<Longrightarrow> dropWhile is_digit (col @ CHR '':'' # msg) = CHR '':'' # msg"
  by (induction col) (auto simp: is_digit_def)

lemma dot_star_end_no_newline: "CHR 0x0A \<notin> set msg \<Longrightarrow> dot_star_end msg"
  by (auto simp: dot_star_end_def before_final_newline_def dest: in_set_butlastD)

lemma gcc_format_match_file_sh:
  assumes "col \<noteq> []" "\<forall>c \<in> set col. is_digit c" "CHR 0x0A \<notin> set msg"
  shows "gcc_format_match (''file.sh:6:'' @ col @ '':'' @ msg) = Some (''file.sh'', ''6'')"
    and "gcc_format_match (''file.sh:5:'' @ col @ '':'' @ msg) = Some (''file.sh'', ''5'')"
  using assms
  by (simp_all add: gcc_format_match_def re_plus_def strip_prefix_def is_digit_def
        takeWhile_digits_colon[unfolded is_digit_def] dot_star_end_no_newline)

text \<open>
  Claim C4. With the map entry of \<open>file.sh\<close> being \<open>5,7\<close>, \<open>is_line_modified\<close> is false for
  line 6 and true for line 5, and of the findings of \<open>file.sh\<close> in GCC format the loop of
  \<open>main\<close> leaves out the one on line 6 and keeps the one on line 5.
\<close>

theorem finding_on_line_6_excluded_line_5_included:
  assumes "m ''file.sh'' = Some ''5,7''"
    and "col \<noteq> []" and "\<forall>c \<in> set col. is_digit c" and "CHR 0x0A \<notin> set msg"
  shows "is_line_modified file_path 6 ''5,7'' = False \<and>
         is_line_modified file_path 5 ''5,7'' = True \<and>
         (\<exists>d p'. diff_filter_loop m ([], p) filtered_lines = Inr (d, p') \<and>
            ''file.sh:6:'' @ col @ '':'' @ msg \<notin> set d \<and>
            (''file.sh:5:'' @ col @ '':'' @ msg \<in> set filtered_lines
               \<longrightarrow> ''file.sh:5:'' @ col @ '':'' @ msg \<in> set d))"
proof -
  have v: "digits_value ''6'' = 6" "digits_value ''5'' = 5"
    by (simp_all add: digits_value_def digit_val_def)
  have s: "py_strip (''file.sh:5:'' @ col @ '':'' @ msg) \<noteq> []"
    by (simp add: py_strip_Cons is_space_def)
  have 6: "\<not> on_modified_line m (''file.sh:6:'' @ col @ '':'' @ msg)"
    using assms(1) gcc_format_match_file_sh(1)[OF assms(2-4)] is_line_modified_5_7[of "''file.sh''"]
    by (simp add: on_modified_line_def v del: append.simps)
  have 5: "on_modified_line m (''file.sh:5:'' @ col @ '':'' @ msg)"
    using assms(1) gcc_format_match_file_sh(2)[OF assms(2-4)] is_line_modified_5_7[of "''file.sh''"] s
    by (simp add: on_modified_line_def v del: append.simps)
  obtain p' where "diff_filter_loop m ([], p) filtered_lines =
      Inr (filter (on_modified_line m) filtered_lines, p')"
    using diff_filter_loop_total[of m "[]" p filtered_lines] by auto
  then show ?thesis using 5 6 is_line_modified_5_7[of file_path] by auto
qed

theorem finding_on_line_6_excluded_line_5_included_witness:
  "is_line_modified ''file.sh'' 6 ''5,7'' = False \<and>
   is_line_modified ''file.sh'' 5 ''5,7'' = True \<and>
   (\<exists>d p'. diff_filter_loop [''file.sh'' \<mapsto> ''5,7''] ([], proc0)
              [''file.sh:6:1: warning: a [SC2086]'', ''file.sh:5:1: warning: a [SC2086]'']
            = Inr (d, p') \<and>
      ''file.sh:6:1: warning: a [SC2086]'' \<notin> set d \<and>
      ''file.sh:5:1: warning: a [SC2086]'' \<in> set d)"
proof -
  have h1: "[''file.sh'' \<mapsto> ''5,7''] ''file.sh'' = Some ''5,7''" by simp
  have h2: "''1'' \<noteq> []" by simp
  have h3: "\<forall>c \<in> set ''1''. is_digit c" by (simp add: is_digit_def)
  have h4: "CHR 0x0A \<notin> set '' warning: a [SC2086]''" by simp
  show ?thesis
    using finding_on_line_6_excluded_line_5_included[where m = "[''file.sh'' \<mapsto> ''5,7'']"
      and col = "''1''" and msg = "'' warning: a [SC2086]''" and file_path = "''file.sh''"
      and p = proc0
      and filtered_lines =
        "[''file.sh:6:1: warning: a [SC2086]'', ''file.sh:5:1: warning: a [SC2086]'']",
      OF h1 h2 h3 h4]
    by simp
qed
















lemma readline_no_newline: "CHR 0x0A \<notin> set a \<Longrightarrow> readline a = a"
  by (induction a) auto

lemma readline_first_line:
  "CHR 0x0A \<notin> set a \<Longrightarrow> readline (a @ CHR 0x0A # r) = a @ [CHR 0x0A]"
  by (induction a) auto

lemma py_in_middle: "py_in sub (a @ sub @ b)"
proof (induction a)
  case Nil
  show ?case
  proof (cases "sub @ b")
    case Nil
    then show ?thesis by simp
  next
    case (Cons c cs)
    have "prefix sub (sub @ b)" by simp
    then show ?thesis by (simp add: Cons)
  qed
next
  case (Cons c a)
  then show ?case by simp
qed

text \<open>
  Claim C9. A path without the \<open>.sh\<close> or \<open>.bash\<close> extension that names a readable file
  whose first line is a shebang of the form \<open>#!...bash\<close> or \<open>#!...sh\<close> is classified as a
  shell script.
\<close>

theorem is_shell_script_shebang:
  assumes "\<not> endswith file_path ''.sh''" and "\<not> endswith file_path ''.bash''"
    and "fs file_path = Regular text"
    and "text = first_line \<or> text = first_line @ CHR 0x0A # rest"
    and "CHR 0x0A \<notin> set first_line"
    and "first_line = ''#!'' @ interp @ ''bash'' \<or> first_line = ''#!'' @ interp @ ''sh''"
  shows "is_shell_script fs file_path = True"
proof -
  obtain mid where fl: "first_line = ''#!'' @ mid @ ''sh''"
    using assms(6) by (elim disjE) (rule that[of "interp @ ''ba''"], simp, rule that[of interp], simp)
  have st: "py_strip first_line = first_line"
    unfolding fl by (rule py_strip_id) (simp_all add: is_space_def)
  have "readline text = first_line \<or> readline text = first_line @ [CHR 0x0A]"
    using assms(4,5) by (auto simp: readline_no_newline readline_first_line)
  then have rl: "py_strip (readline text) = first_line"
    using st by (auto simp: py_strip_snoc_space is_space_def)
  have sw: "startswith first_line ''#!''" by (simp add: fl startswith_def)
  have sh: "py_in ''sh'' first_line"
    using py_in_middle[of "''sh''" "''#!'' @ mid" "[]"] by (simp add: fl)
  show ?thesis
    using assms(3) rl sw sh by (simp add: is_shell_script_def isfile_def)
qed

theorem is_shell_script_shebang_witness:
  "\<not> endswith ''deploy'' ''.sh'' \<and> \<not> endswith ''deploy'' ''.bash'' \<and>
   is_shell_script
     (\<lambda>path. if path = ''deploy'' then Regular (''#!/usr/bin/env bash'' @ CHR 0x0A # ''echo hi'')
             else Absent)
     ''deploy'' = True"
proof -
  let ?fs = "\<lambda>path. if path = ''deploy''
                     then Regular (''#!/usr/bin/env bash'' @ CHR 0x0A # ''echo hi'') else Absent"
  have h1: "\<not> endswith ''deploy'' ''.sh''" by (simp add: endswith_def suffix_def)
  have h2: "\<not> endswith ''deploy'' ''.bash''" by (simp add: endswith_def suffix_def)
  have h3: "?fs ''deploy'' = Regular (''#!/usr/bin/env bash'' @ CHR 0x0A # ''echo hi'')" by simp
  have h4: "''#!/usr/bin/env bash'' @ CHR 0x0A # ''echo hi'' = ''#!/usr/bin/env bash'' \<or>
            ''#!/usr/bin/env bash'' @ CHR 0x0A # ''echo hi''
              = ''#!/usr/bin/env bash'' @ CHR 0x0A # ''echo hi''" by simp
  have h5: "CHR 0x0A \<notin> set ''#!/usr/bin/env bash''" by simp
  have h6: "''#!/usr/bin/env bash'' = ''#!'' @ ''/usr/bin/env '' @ ''bash'' \<or>
            ''#!/usr/bin/env bash'' = ''#!'' @ ''/usr/bin/env '' @ ''sh''" by simp
  show ?thesis
    using h1 h2 is_shell_script_shebang[where fs = ?fs and file_path = "''deploy''"
       and first_line = "''#!/usr/bin/env bash''" and rest = "''echo hi''"
       and interp = "''/usr/bin/env ''", OF h1 h2 h3 h4 h5 h6]
    by blast
qed

lemma no_header_first_char:
  "c \<noteq> CHR ''d'' \<Longrightarrow> c \<noteq> CHR ''@'' \<Longrightarrow> no_header (c # s)"
  by (simp add: no_header_def git_diff_match_def hunk_match_def strip_prefix_def)

lemma no_header_Nil: "no_header []"
  by (simp add: no_header_def git_diff_match_def hunk_match_def strip_prefix_def)

lemma no_header_added: "is_added line \<Longrightarrow> no_header line"
  by (cases line) (auto simp: is_added_def startswith_def intro: no_header_first_char)

lemma no_header_context: "is_context line \<Longrightarrow> no_header line"
  by (cases line) (auto simp: is_context_def startswith_def intro: no_header_first_char)

lemma parse_step_no_header: "no_header line \<Longrightarrow> parse_step st line = Inr (process_line st line)"
  by (simp add: no_header_def parse_step_def)

lemma parse_lines_append:
  "parse_lines st (a @ b) =
     (case parse_lines st a of Inl e \<Rightarrow> Inl e | Inr st' \<Rightarrow> parse_lines st' b)"
  by (induction a arbitrary: st) (auto split: sum.splits)

lemma parse_step_total: "\<exists>st'. parse_step st line = Inr st'"
  by (auto simp: parse_step_def hunk_match_int split: option.splits)

lemma parse_lines_total: "\<exists>st'. parse_lines st lines = Inr st'"
proof (induction lines arbitrary: st)
  case Nil
  show ?case by simp
next
  case (Cons line rest)
  obtain st1 where "parse_step st line = Inr st1" using parse_step_total by blast
  then show ?case using Cons[of st1] by simp
qed

lemma git_group1_nonempty: "git_group1 r = Some g \<Longrightarrow> g \<noteq> []"
  by (induction r arbitrary: g) (auto split: if_splits option.splits)

lemma process_line_current_file: "current_file (process_line st line) = current_file st"
  by (simp add: process_line_def split: option.splits)

lemma parse_step_file_nonempty:
  assumes "parse_step st line = Inr st'" and "current_file st \<noteq> Some []"
  shows "current_file st' \<noteq> Some []"
  using assms
  by (auto simp: parse_step_def git_diff_match_def process_line_current_file
      split: option.splits if_splits dest: git_group1_nonempty)

lemma parse_lines_file_nonempty:
  "parse_lines st lines = Inr st' \<Longrightarrow> current_file st \<noteq> Some [] \<Longrightarrow> current_file st' \<noteq> Some []"
proof (induction lines arbitrary: st)
  case Nil
  then show ?case by simp
next
  case (Cons line rest)
  then show ?case by (auto split: sum.splits dest: parse_step_file_nonempty)
qed

lemma hunk_header_10:
  "git_diff_match ''@@ -1,3 +10,3 @@'' = None"
  "hunk_match ''@@ -1,3 +10,3 @@'' = Some ''10''"
  "py_int ''10'' = Some 10"
  by (simp_all add: git_diff_match_def hunk_match_def strip_prefix_def re_plus_def re_opt_count_def
        is_space_def is_digit_def py_int_def py_strip_def int_digits_def digits_value_def
        digit_val_def)



lemma lines_of_add_line:
  "lines_of (add_line f n m) f = insert n (lines_of m f)"
  "f' \<noteq> f \<Longrightarrow> add_line f n m f' = m f'"
  by (simp_all add: lines_of_def add_line_def)

lemma process_line_cases:
  assumes "current_file st = Some f" and "f \<noteq> []" and "0 < current_line_num st"
  shows "process_line st line =
     (if is_added line then
        st\<lparr>current_line_num := current_line_num st + 1,
           modified_lines := add_line f (current_line_num st) (modified_lines st)\<rparr>
      else if is_context line then st\<lparr>current_line_num := current_line_num st + 1\<rparr>
      else st)"
  using assms by (simp add: process_line_def is_added_def is_context_def)


lemmas eval_defs =
  parse_diff_file_def parse_diff_def parse_step_def git_diff_match_def hunk_match_def
  strip_prefix_def re_plus_def re_opt_count_def is_space_def is_digit_def py_int_def py_strip_def
  int_digits_def digits_value_def digit_val_def process_line_def has_file_def add_line_def
  startswith_def scan0_def dot_plus_end_def dot_star_end_def before_final_newline_def

lemma parse_diff_file_regular:
  "fs path = Regular content \<Longrightarrow>
   fst (parse_diff_file fs path p) =
     (case parse_lines scan0 (py_split (CHR 0x0A) content) of
        Inl e \<Rightarrow> Inl e | Inr st \<Rightarrow> Inr (modified_lines st))"
  by (simp add: parse_diff_file_def parse_diff_def)

text \<open>
  Claim C3. When the lines of the diff end with the hunk header \<open>@@ -1,3 +10,3 @@\<close> followed
  by one added line (it starts with \<open>+\<close> and not with \<open>+++\<close>), \<open>parse_diff_file\<close> records
  line number 10 for the file the hunk belongs to, the file named by the last
  \<open>diff --git\<close> line before the header.
\<close>

theorem added_line_after_hunk_header_is_line_10:
  assumes "fs diff_file_path = Regular content"
    and "py_split (CHR 0x0A) content = pre @ [''@@ -1,3 +10,3 @@'', added]"
    and "parse_lines scan0 pre = Inr st" and "current_file st = Some f"
    and "startswith added ''+''" and "\<not> startswith added ''+++''"
  shows "\<exists>m. fst (parse_diff_file fs diff_file_path p) = Inr m \<and>
           lines_of m f = insert 10 (lines_of (modified_lines st) f)"
proof -
  have ne: "f \<noteq> []"
    using parse_lines_file_nonempty[OF assms(3)] assms(4) by (auto simp: scan0_def)
  let ?st1 = "st\<lparr>current_line_num := 10\<rparr>"
  have h: "parse_step st ''@@ -1,3 +10,3 @@'' = Inr ?st1"
    using assms(4) ne by (simp add: parse_step_def hunk_header_10 has_file_def)
  have "is_added added" using assms(5,6) by (simp add: is_added_def)
  then have a: "parse_step ?st1 added =
      Inr (?st1\<lparr>current_line_num := 11, modified_lines := add_line f 10 (modified_lines st)\<rparr>)"
    using assms(4) ne
    by (simp add: parse_step_no_header[OF no_header_added] process_line_cases[of ?st1 f])
  have "parse_lines scan0 (py_split (CHR 0x0A) content) =
      Inr (?st1\<lparr>current_line_num := 11, modified_lines := add_line f 10 (modified_lines st)\<rparr>)"
    using assms(3) h a by (simp add: assms(2) parse_lines_append)
  then show ?thesis
    using assms(1) by (simp add: parse_diff_file_regular lines_of_add_line)
qed

theorem added_line_after_hunk_header_is_line_10_witness:
  "\<exists>m. fst (parse_diff_file fs_diffs ''one_added.diff'' proc0) = Inr m \<and>
        lines_of m ''deploy.sh'' = {10}"
proof -
  let ?st = "\<lparr>current_file = Some ''deploy.sh'', current_line_num = 0,
              modified_lines = Map.empty\<rparr>"
  have h1: "fs_diffs ''one_added.diff'' = Regular diff_one_added" by (simp add: fs_diffs_def)
  have h2: "py_split (CHR 0x0A) diff_one_added =
      [''diff --git a/deploy.sh b/deploy.sh''] @ [''@@ -1,3 +10,3 @@'', ''+echo deploying'']"
    by (simp add: diff_one_added_def)
  have h3: "parse_lines scan0 [''diff --git a/deploy.sh b/deploy.sh''] = Inr ?st"
    by (simp add: eval_defs)
  have h4: "current_file ?st = Some ''deploy.sh''" by simp
  have h5: "startswith ''+echo deploying'' ''+''" by (simp add: startswith_def)
  have h6: "\<not> startswith ''+echo deploying'' ''+++''" by (simp add: startswith_def)
  show ?thesis
    using added_line_after_hunk_header_is_line_10[where fs = fs_diffs
        and diff_file_path = "''one_added.diff''" and p = proc0, OF h1 h2 h3 h4 h5 h6]
    by (simp add: lines_of_def)
qed





lemma write_entry_files: "files (snd (write_entry ml (buf, p) script)) = files p"
  by (simp add: write_entry_def print_def Let_def split: option.splits)














end
